theory Spec2Isabelle
  imports Main
begin

unbundle bit_operations_syntax

section \<open>Logging\<close>

text \<open>
  The program reports through the \<open>logging\<close> module only. A log is the list of
  emitted records, oldest first; each record is its level and its formatted message.
\<close>

datatype level = INFO | WARNING | ERROR

type_synonym log = "(level \<times> string) list"

text \<open>Decimal rendering of a length, as an f-string renders \<open>{len(...)}\<close>.\<close>

fun show_nat :: "nat \<Rightarrow> string" where
  "show_nat n =
     (if n < 10 then [char_of (48 + n)]
      else show_nat (n div 10) @ [char_of (48 + n mod 10)])"

section \<open>The filesystem as the scanner sees it\<close>

text \<open>
  A directory entry is a non-directory (\<open>File\<close>: its name and what \<open>os.stat\<close> gives on
  it, either the text of the \<open>OSError\<close> or \<open>st_mode\<close>), a directory (\<open>Dir\<close>: its name,
  its own mode, whether \<open>os.scandir\<close> succeeds on it, and its listing), or a symbolic link
  to a directory (\<open>DirLink\<close>), which \<open>os.walk\<close> lists among the directories and does not
  descend into.
\<close>

datatype entry =
    File string "string + int"
  | Dir string int bool "entry list"
  | DirLink string

fun is_dir :: "entry \<Rightarrow> bool" where
  "is_dir (File n s) = False"
| "is_dir (Dir n m r es) = True"
| "is_dir (DirLink n) = True"

fun entry_name :: "entry \<Rightarrow> string" where
  "entry_name (File n s) = n"
| "entry_name (Dir n m r es) = n"
| "entry_name (DirLink n) = n"

text \<open>\<open>os.stat\<close> on a non-directory entry; directories are never passed to it.\<close>

fun os_stat :: "entry \<Rightarrow> string + int" where
  "os_stat (File n s) = s"
| "os_stat (Dir n m r es) = Inr m"
| "os_stat (DirLink n) = Inl ''dangling''"

text \<open>\<open>os.path.join\<close> of two components (POSIX).\<close>

definition path_join :: "string \<Rightarrow> string \<Rightarrow> string" where
  "path_join a b =
     (if b \<noteq> [] \<and> hd b = CHR ''/'' then b
      else if a = [] \<or> last a = CHR ''/'' then a @ b
      else a @ ''/'' @ b)"

text \<open>
  \<open>os.walk(top)\<close>, top-down, \<open>onerror=None\<close>, \<open>followlinks=False\<close>: a directory
  whose listing fails yields nothing and raises nothing; otherwise it yields
  \<open>(dirpath, dirs, nondirs)\<close> and then walks each real subdirectory in listing order.
\<close>

fun os_walk :: "string \<Rightarrow> entry \<Rightarrow> (string \<times> entry list \<times> entry list) list"
and os_walk_dirs :: "string \<Rightarrow> entry list \<Rightarrow> (string \<times> entry list \<times> entry list) list" where
  "os_walk dirpath (Dir n m readable es) =
     (if readable
      then (dirpath, filter is_dir es, filter (\<lambda>e. \<not> is_dir e) es) # os_walk_dirs dirpath es
      else [])"
| "os_walk dirpath (File n s) = []"
| "os_walk dirpath (DirLink n) = []"
| "os_walk_dirs dirpath [] = []"
| "os_walk_dirs dirpath (e # es) =
     (case e of
        Dir n m r sub \<Rightarrow> os_walk (path_join dirpath n) e
      | _ \<Rightarrow> [])
     @ os_walk_dirs dirpath es"

section \<open>Privilege Scanner: \<open>find_setuid_setgid_files\<close>\<close>

type_synonym inventory = "(string \<times> int) list"

text \<open>The inner loop \<open>for file in files\<close>: the records appended and the warnings logged.\<close>

fun stat_files :: "string \<Rightarrow> entry list \<Rightarrow> inventory \<times> log" where
  "stat_files root [] = ([], [])"
| "stat_files root (file # files) =
     (let filepath = path_join root (entry_name file);
          (recs, lg) = stat_files root files
      in case os_stat file of
           Inr st_mode \<Rightarrow>
             (if st_mode AND (2048 OR 1024) \<noteq> 0 then ((filepath, st_mode) # recs, lg)
              else (recs, lg))
         | Inl e \<Rightarrow>
             (recs, (WARNING, ''Could not stat '' @ filepath @ '': '' @ e) # lg))"

text \<open>The outer loop \<open>for root, _, files in os.walk(root_dir)\<close>.\<close>

fun scan_walk :: "(string \<times> entry list \<times> entry list) list \<Rightarrow> inventory \<times> log" where
  "scan_walk [] = ([], [])"
| "scan_walk ((root, dirs, files) # rest) =
     (let (r1, l1) = stat_files root files;
          (r2, l2) = scan_walk rest
      in (r1 @ r2, l1 @ l2))"

text \<open>
  The first argument tells which directory tree, if any, the operating system finds at a
  path. A path at which there is nothing, or a non-directory, yields an empty walk. In
  this model \<open>os.walk\<close> raises no \<open>OSError\<close>, so the handler around the loop has no
  branch here.
\<close>

definition find_setuid_setgid_files :: "(string \<Rightarrow> entry option) \<Rightarrow> string \<Rightarrow> inventory \<times> log" where
  "find_setuid_setgid_files tree_at root_dir =
     (case tree_at root_dir of
        None \<Rightarrow> ([], [])
      | Some t \<Rightarrow> scan_walk (os_walk root_dir t))"

section \<open>The environment of a run\<close>

text \<open>
  What reading and parsing the configuration file gives: the file is missing, the YAML
  parser rejects it, something else fails, or a document is parsed, which is a mapping
  or something else.
\<close>

datatype yaml = YDict "(string \<times> string) list" | YOther

datatype open_result = FileNotFound | YAMLError string | OtherError string | Parsed yaml

text \<open>A process as one poll sees it: \<open>info['exe']\<close>, or one of the three psutil errors.\<close>

datatype proc = Exe "string option" | ProcError string

text \<open>
  Everything outside the program. Time is counted in milliseconds. \<open>process_table i\<close> is
  what the \<open>i\<close>-th poll of \<open>psutil.process_iter\<close> gives (\<open>Inl\<close>: it raises), and
  \<open>poll_cost i\<close> is the time the \<open>i\<close>-th pass takes besides its 100 ms sleep.
  \<open>modes\<close> holds the mode of every file that exists when \<open>chmod\<close> runs; \<open>denied\<close> tells
  for which paths \<open>chmod\<close> is refused; \<open>cpe_text\<close> is the text of the resulting
  \<open>CalledProcessError\<close>; \<open>spawn_error\<close> is set when \<open>subprocess.run\<close> itself raises
  (no \<open>chmod\<close> executable, for one).
\<close>

record world =
  config_files :: "string \<Rightarrow> open_result"
  tree_at :: "string \<Rightarrow> entry option"
  process_table :: "nat \<Rightarrow> string + proc list"
  poll_cost :: "nat \<Rightarrow> nat"
  clock :: nat
  modes :: "string \<rightharpoonup> int"
  denied :: "string \<Rightarrow> bool"
  cpe_text :: "string \<Rightarrow> string"
  spawn_error :: "string option"

record args =
  config :: string
  dry_run :: bool
  monitor_time :: int

section \<open>\<open>load_config\<close>\<close>

text \<open>
  Every failure leaves as a \<open>PrivilegeRemoverError\<close> (\<open>Inl\<close>, with its message). The
  error raised for a document that is no mapping is raised inside the \<open>try\<close> and is
  wrapped again by the last handler.
\<close>

definition load_config :: "(string \<Rightarrow> open_result) \<Rightarrow> string \<Rightarrow> string + (string \<times> string) list" where
  "load_config files config_file =
     (case files config_file of
        Parsed (YDict d) \<Rightarrow> Inr d
      | Parsed YOther \<Rightarrow>
          Inl (''Failed to load configuration: '' @ ''Configuration file must contain a dictionary.'')
      | FileNotFound \<Rightarrow> Inl (''Configuration file not found: '' @ config_file)
      | YAMLError e \<Rightarrow> Inl (''Error parsing YAML file: '' @ e)
      | OtherError e \<Rightarrow> Inl (''Failed to load configuration: '' @ e))"

section \<open>Activity Monitor: \<open>monitor_processes\<close>\<close>

definition show_int :: "int \<Rightarrow> string" where
  "show_int i = (if i < 0 then ''-'' @ show_nat (nat (- i)) else show_nat (nat i))"

text \<open>The inner loop over one poll of the process table.\<close>

fun sample_procs :: "proc list \<Rightarrow> string set \<times> log" where
  "sample_procs [] = ({}, [])"
| "sample_procs (p # ps) =
     (let (s, lg) = sample_procs ps
      in case p of
           Exe (Some exe) \<Rightarrow> (if exe \<noteq> [] then (insert exe s, lg) else (s, lg))
         | Exe None \<Rightarrow> (s, lg)
         | ProcError e \<Rightarrow> (s, (WARNING, ''Error getting process info: '' @ e) # lg))"

text \<open>
  The \<open>while\<close> loop. \<open>duration\<close> is in seconds, \<open>start\<close> is \<open>start_time\<close>, \<open>i\<close> counts
  the polls. A poll that raises leaves the loop through the outer handler.
\<close>

function monitor_loop ::
  "world \<Rightarrow> int \<Rightarrow> nat \<Rightarrow> nat \<Rightarrow> string set \<Rightarrow> log \<Rightarrow> world \<times> string set \<times> log" where
  "monitor_loop w duration start i created lg =
     (if int (clock w) - int start < duration * 1000 then
        (case process_table w i of
           Inl e \<Rightarrow>
             (w\<lparr>clock := clock w + poll_cost w i\<rparr>, created,
              lg @ [(ERROR, ''Error during process monitoring: '' @ e)])
         | Inr procs \<Rightarrow>
             (let (s, l) = sample_procs procs
              in monitor_loop (w\<lparr>clock := clock w + poll_cost w i + 100\<rparr>) duration start
                   (Suc i) (created \<union> s) (lg @ l)))
      else (w, created, lg))"
  by pat_completeness auto
termination
  by (relation "measure (\<lambda>(w, duration, start, i, created, lg).
        nat (duration * 1000 - (int (clock w) - int start)))") auto

definition monitor_processes :: "world \<Rightarrow> int \<Rightarrow> world \<times> string set \<times> log" where
  "monitor_processes w duration =
     (let (w', created_processes, lg) =
            monitor_loop w duration (clock w) 0 {}
              [(INFO, ''Monitoring processes for '' @ show_int duration @ '' seconds...'')]
      in (w', created_processes, lg @ [(INFO, ''Process monitoring completed.'')]))"

section \<open>Correlator: \<open>check_privilege_usage\<close>\<close>

definition check_privilege_usage :: "string \<Rightarrow> string set \<Rightarrow> bool" where
  "check_privilege_usage filepath monitored_processes = (filepath \<in> monitored_processes)"

section \<open>Revoker: \<open>remove_privileges\<close>\<close>

datatype run_result = Completed | CalledProcessError string | OtherException string

text \<open>
  \<open>subprocess.run(['chmod', 'a-s', filepath], check=True)\<close>: \<open>chmod a-s\<close> clears the
  bits \<open>0o6000\<close> of an existing file it may change and exits non-zero otherwise.
\<close>

definition subprocess_run_chmod :: "world \<Rightarrow> string \<Rightarrow> world \<times> run_result" where
  "subprocess_run_chmod w filepath =
     (case spawn_error w of
        Some e \<Rightarrow> (w, OtherException e)
      | None \<Rightarrow>
          (case modes w filepath of
             None \<Rightarrow> (w, CalledProcessError (cpe_text w filepath))
           | Some m \<Rightarrow>
               if denied w filepath then (w, CalledProcessError (cpe_text w filepath))
               else (w\<lparr>modes := (modes w)(filepath \<mapsto> m AND NOT 3072)\<rparr>, Completed)))"

definition remove_privileges :: "world \<Rightarrow> string \<Rightarrow> bool \<Rightarrow> world \<times> log" where
  "remove_privileges w filepath dry =
     (if \<not> dry then
        (case subprocess_run_chmod w filepath of
           (w', Completed) \<Rightarrow>
             (w', [(INFO, ''Removed setuid/setgid bits from: '' @ filepath)])
         | (w', CalledProcessError e) \<Rightarrow>
             (w', [(ERROR, ''Failed to remove privileges from '' @ filepath @ '': '' @ e)])
         | (w', OtherException e) \<Rightarrow>
             (w', [(ERROR, ''An unexpected error occurred: '' @ e)]))
      else (w, [(INFO, ''[Dry Run] Would remove setuid/setgid bits from: '' @ filepath)]))"

section \<open>\<open>main\<close>\<close>

text \<open>The loop \<open>for filepath, mode in setuid_setgid_files\<close>.\<close>

fun revoke_loop :: "world \<Rightarrow> inventory \<Rightarrow> string set \<Rightarrow> bool \<Rightarrow> world \<times> log" where
  "revoke_loop w [] monitored dry = (w, [])"
| "revoke_loop w ((filepath, mode) # rest) monitored dry =
     (if \<not> check_privilege_usage filepath monitored then
        (let (w1, l1) = remove_privileges w filepath dry;
             (w2, l2) = revoke_loop w1 rest monitored dry
         in (w2, l1 @ l2))
      else
        (let (w2, l2) = revoke_loop w rest monitored dry
         in (w2, (INFO, ''Keeping privileges for: '' @ filepath
                          @ '' (used by monitored processes).'') # l2)))"

text \<open>
  The result is the world the run leaves, its log, and the exit status: 1 where the
  source calls \<open>sys.exit(1)\<close>, 0 where \<open>main\<close> returns. The scanner is called without
  an argument, so with its default \<open>"/"\<close>. Nothing in the \<open>try\<close> block raises in this
  model, so its handler has no branch here.
\<close>

definition main :: "world \<Rightarrow> args \<Rightarrow> world \<times> log \<times> int" where
  "main w a =
     (case load_config (config_files w) (config a) of
        Inl e \<Rightarrow> (w, [(ERROR, e)], 1)
      | Inr cfg \<Rightarrow>
          if monitor_time a \<le> 0
          then (w, [(ERROR, ''Monitor time must be a positive integer.'')], 1)
          else
            (let (setuid_setgid_files, l1) = find_setuid_setgid_files (tree_at w) ''/'';
                 l2 = [(INFO, ''Found '' @ show_nat (length setuid_setgid_files)
                               @ '' files with setuid/setgid bits set.'')];
                 (w1, monitored_processes, l3) = monitor_processes w (monitor_time a);
                 l4 = [(INFO, ''Monitored '' @ show_nat (card monitored_processes)
                               @ '' unique processes.'')];
                 (w2, l5) = revoke_loop w1 setuid_setgid_files monitored_processes (dry_run a)
             in (w2, l1 @ l2 @ l3 @ l4 @ l5, 0)))"

section \<open>Notions the properties are stated with\<close>

text \<open>
  A file is reachable from a directory when it is listed in it, or reachable from one of
  its real subdirectories, all directories on the way being readable. The relation
  gives the path the file has and what \<open>os.stat\<close> gives on it.
\<close>

inductive reachable :: "string \<Rightarrow> entry \<Rightarrow> string \<Rightarrow> string + int \<Rightarrow> bool" where
  here: "File n s \<in> set es \<Longrightarrow> reachable d (Dir dn m True es) (path_join d n) s"
| below: "Dir n m' r sub \<in> set es \<Longrightarrow> reachable (path_join d n) (Dir n m' r sub) p s
          \<Longrightarrow> reachable d (Dir dn m True es) p s"

code_pred reachable .

text \<open>A mode has the setuid bit (\<open>0o4000\<close>, bit 11) or the setgid bit (\<open>0o2000\<close>, bit 10).\<close>

definition privileged :: "int \<Rightarrow> bool" where
  "privileged m = (bit m 11 \<or> bit m 10)"

text \<open>The number of reachable files whose mode is known and privileged.\<close>

fun priv_count :: "entry \<Rightarrow> nat"
and priv_count_list :: "entry list \<Rightarrow> nat" where
  "priv_count (Dir n m r es) = (if r then priv_count_list es else 0)"
| "priv_count (File n s) = 0"
| "priv_count (DirLink n) = 0"
| "priv_count_list [] = 0"
| "priv_count_list (e # es) =
     (case e of
        File n (Inr m) \<Rightarrow> if privileged m then 1 else 0
      | File n (Inl x) \<Rightarrow> 0
      | _ \<Rightarrow> priv_count e)
     + priv_count_list es"





section \<open>An example run\<close>

text \<open>
  Three setuid or setgid files under \<open>/bin\<close> and \<open>/opt\<close>, one unprivileged file, a
  directory that cannot be listed and a setgid directory. Only \<open>/bin/a\<close> is seen
  running; each pass over the process table takes half a second; \<open>chmod\<close> is refused
  on \<open>/opt/x\<close>. The configuration file names \<open>/opt\<close> as the root path.
\<close>

definition example_tree :: entry where
  "example_tree =
     Dir ''/'' 16877 True
       [Dir ''bin'' 16877 True
          [File ''a'' (Inr 35309), File ''b'' (Inr 35309), File ''c'' (Inr 33261)],
        Dir ''locked'' 16832 False [File ''s'' (Inr 35309)],
        Dir ''opt'' 17917 True [File ''x'' (Inr 34285)]]"

definition example_world :: world where
  "example_world =
     \<lparr> config_files = (\<lambda>p. if p = ''config.yaml'' then Parsed (YDict [(''root_path'', ''/opt'')])
                            else FileNotFound),
       tree_at = (\<lambda>p. if p = ''/'' then Some example_tree
                       else if p = ''/opt'' then Some (Dir ''opt'' 17917 True [File ''x'' (Inr 34285)])
                       else None),
       process_table = (\<lambda>i. Inr [Exe (Some ''/bin/a''), Exe None, ProcError ''process no longer exists'']),
       poll_cost = (\<lambda>i. 500),
       clock = 0,
       modes = [''/bin/a'' \<mapsto> 35309, ''/bin/b'' \<mapsto> 35309, ''/bin/c'' \<mapsto> 33261, ''/opt/x'' \<mapsto> 34285],
       denied = (\<lambda>p. p = ''/opt/x''),
       cpe_text = (\<lambda>p. ''chmod exited with status 1''),
       spawn_error = None \<rparr>"

definition example_args :: args where
  "example_args = \<lparr> config = ''config.yaml'', dry_run = False, monitor_time = 1 \<rparr>"




section \<open>Auxiliary facts\<close>

declare monitor_loop.simps [simp del]

declare show_nat.simps [simp del]

subsection \<open>Scanner\<close>

lemma mask_privileged: "(m AND 3072 \<noteq> 0) = privileged (m::int)"
proof -
  have a: "(m AND 2 ^ 11 = 0) = (\<not> bit m 11)" by (rule and_exp_eq_0_iff_not_bit)
  have b: "(m AND 2 ^ 10 = 0) = (\<not> bit m 10)" by (rule and_exp_eq_0_iff_not_bit)
  have c: "(3072::int) = 2 ^ 11 OR 2 ^ 10" by simp
  have "m AND 3072 = (m AND 2 ^ 11) OR (m AND 2 ^ 10)"
    unfolding c by (rule bit.conj_disj_distrib)
  then have "(m AND 3072 = 0) = (m AND 2 ^ 11 = 0 \<and> m AND 2 ^ 10 = 0)"
    by (simp only: or_eq_0_iff)
  then show ?thesis using a b by (simp only: privileged_def) blast
qed

lemma scan_walk_append:
  "scan_walk (xs @ ys) = (fst (scan_walk xs) @ fst (scan_walk ys), snd (scan_walk xs) @ snd (scan_walk ys))"
  by (induction xs) (auto split: prod.splits)

lemma reachable_File [simp]: "\<not> reachable d (File n s) p x"
  by (auto elim: reachable.cases)

lemma reachable_DirLink [simp]: "\<not> reachable d (DirLink n) p x"
  by (auto elim: reachable.cases)

lemma reachable_Dir:
  "reachable d (Dir dn m r es) p s =
     (r \<and> ((\<exists>n. File n s \<in> set es \<and> p = path_join d n)
          \<or> (\<exists>n m' r' sub. Dir n m' r' sub \<in> set es \<and> reachable (path_join d n) (Dir n m' r' sub) p s)))"
  by (subst reachable.simps) auto

lemma set_stat_files:
  "set (fst (stat_files d (filter (\<lambda>e. \<not> is_dir e) es))) =
     {(p, m). \<exists>n. File n (Inr m) \<in> set es \<and> p = path_join d n \<and> privileged m}"
proof (induction es)
  case Nil
  then show ?case by simp
next
  case (Cons e es)
  show ?case
  proof (cases e)
    case (File n s)
    then show ?thesis using Cons
      by (cases s) (auto simp: mask_privileged split: prod.splits)
  next
    case (Dir n m r sub)
    then show ?thesis using Cons by auto
  next
    case (DirLink n)
    then show ?thesis using Cons by auto
  qed
qed

lemma length_stat_files:
  "length (fst (stat_files d (filter (\<lambda>e. \<not> is_dir e) es))) =
     priv_count_list (filter (\<lambda>e. \<not> is_dir e) es)"
proof (induction es)
  case Nil
  then show ?case by simp
next
  case (Cons e es)
  show ?case
  proof (cases e)
    case (File n s)
    then show ?thesis using Cons
      by (cases s) (auto simp: mask_privileged split: prod.splits)
  next
    case (Dir n m r sub)
    then show ?thesis using Cons by auto
  next
    case (DirLink n)
    then show ?thesis using Cons by auto
  qed
qed


lemma scan_set:
  "set (fst (scan_walk (os_walk d t))) = {(p, m). reachable d t p (Inr m) \<and> privileged m}"
  "set (fst (scan_walk (os_walk_dirs d es))) =
     {(p, m). \<exists>n m' r sub. Dir n m' r sub \<in> set es
                \<and> reachable (path_join d n) (Dir n m' r sub) p (Inr m) \<and> privileged m}"
proof (induction d t and d es rule: os_walk_os_walk_dirs.induct)
  case (1 dirpath n m readable es)
  show ?case
  proof (cases readable)
    case False
    have "\<not> reachable dirpath (Dir n m False es) p x" for p x
      by (subst reachable_Dir) simp
    with False show ?thesis by simp
  next
    case True
    have R: "reachable dirpath (Dir n m True es) p x =
               ((\<exists>k. File k x \<in> set es \<and> p = path_join dirpath k)
                \<or> (\<exists>k m' r' sub. Dir k m' r' sub \<in> set es
                      \<and> reachable (path_join dirpath k) (Dir k m' r' sub) p x))" for p x
      by (subst reachable_Dir) simp
    have "set (fst (scan_walk (os_walk dirpath (Dir n m True es)))) =
            set (fst (stat_files dirpath (filter (\<lambda>e. \<not> is_dir e) es)))
            \<union> set (fst (scan_walk (os_walk_dirs dirpath es)))"
      by (simp split: prod.splits)
    also have "\<dots> = {(p, x). reachable dirpath (Dir n m True es) p (Inr x) \<and> privileged x}"
      unfolding set_stat_files "1.IH"[OF True] R by blast
    finally show ?thesis using True by simp
  qed
next
  case (2 dirpath n s)
  then show ?case by simp
next
  case (3 dirpath n)
  then show ?case by simp
next
  case (4 dirpath)
  then show ?case by simp
next
  case (5 dirpath e es)
  show ?case
  proof (cases e)
    case (File n s)
    then show ?thesis using "5.IH"(2) by auto
  next
    case (Dir n m r sub)
    then show ?thesis using "5.IH"(1)[OF Dir] "5.IH"(2)
      by (auto simp: scan_walk_append)
  next
    case (DirLink n)
    then show ?thesis using "5.IH"(2) by auto
  qed
qed

lemma priv_count_split:
  "priv_count_list es =
     priv_count_list (filter (\<lambda>e. \<not> is_dir e) es) + priv_count_list (filter is_dir es)"
  by (induction es) auto

lemma scan_length:
  "length (fst (scan_walk (os_walk d t))) = priv_count t"
  "length (fst (scan_walk (os_walk_dirs d es))) = priv_count_list (filter is_dir es)"
proof (induction d t and d es rule: os_walk_os_walk_dirs.induct)
  case (1 dirpath n m readable es)
  show ?case
  proof (cases readable)
    case False
    then show ?thesis by simp
  next
    case True
    have "length (fst (scan_walk (os_walk dirpath (Dir n m readable es)))) =
            length (fst (stat_files dirpath (filter (\<lambda>e. \<not> is_dir e) es)))
            + length (fst (scan_walk (os_walk_dirs dirpath es)))"
      using True by (simp split: prod.splits)
    then show ?thesis
      unfolding length_stat_files "1.IH"[OF True] using True priv_count_split[of es] by simp
  qed
next
  case (2 dirpath n s)
  then show ?case by simp
next
  case (3 dirpath n)
  then show ?case by simp
next
  case (4 dirpath)
  then show ?case by simp
next
  case (5 dirpath e es)
  show ?case
  proof (cases e)
    case (File n s)
    then show ?thesis using "5.IH"(2) by auto
  next
    case (Dir n m r sub)
    then show ?thesis using "5.IH"(1)[OF Dir] "5.IH"(2)
      by (auto simp: scan_walk_append)
  next
    case (DirLink n)
    then show ?thesis using "5.IH"(2) by auto
  qed
qed








subsection \<open>Monitor\<close>

lemma monitor_loop_clock_only:
  "\<exists>c. fst (monitor_loop w d s i cr lg) = w\<lparr>clock := c\<rparr>"
proof (induction w d s i cr lg rule: monitor_loop.induct)
  case (1 w duration start i created lg)
  show ?case
  proof (cases "int (clock w) - int start < duration * 1000")
    case False
    then have "fst (monitor_loop w duration start i created lg) = w\<lparr>clock := clock w\<rparr>"
      by (simp add: monitor_loop.simps[of w])
    then show ?thesis by blast
  next
    case True
    show ?thesis
    proof (cases "process_table w i")
      case (Inl e)
      with True have "fst (monitor_loop w duration start i created lg) = w\<lparr>clock := clock w + poll_cost w i\<rparr>"
        by (simp add: monitor_loop.simps[of w])
      then show ?thesis by blast
    next
      case (Inr procs)
      obtain s l where sl: "sample_procs procs = (s, l)" by (cases "sample_procs procs")
      from "1.IH"[OF True Inr sl[symmetric] refl]
      obtain c where "fst (monitor_loop (w\<lparr>clock := clock w + poll_cost w i + 100\<rparr>) duration start
                   (Suc i) (created \<union> s) (lg @ l)) = w\<lparr>clock := c\<rparr>" by auto
      with True Inr sl have "fst (monitor_loop w duration start i created lg) = w\<lparr>clock := c\<rparr>"
        by (simp add: monitor_loop.simps[of w])
      then show ?thesis by blast
    qed
  qed
qed

lemma monitor_processes_clock_only:
  "\<exists>c. fst (monitor_processes w d) = w\<lparr>clock := c\<rparr>"
proof -
  let ?r = "monitor_loop w d (clock w) 0 {}
              [(INFO, ''Monitoring processes for '' @ show_int d @ '' seconds...'')]"
  obtain c where c: "fst ?r = w\<lparr>clock := c\<rparr>"
    using monitor_loop_clock_only by blast
  obtain w' cr lg where r: "?r = (w', cr, lg)" by (cases ?r)
  from r have "fst (monitor_processes w d) = w'"
    unfolding monitor_processes_def by (simp del: append.simps)
  with c r show ?thesis by auto
qed



subsection \<open>Revoker and \<open>main\<close>\<close>



lemma remove_privileges_modes:
  "modes (fst (remove_privileges w p dry)) q \<noteq> modes w q \<Longrightarrow> q = p \<and> \<not> dry"
  by (auto simp: remove_privileges_def subprocess_run_chmod_def split: if_splits option.splits)

lemma revoke_loop_modes:
  "modes (fst (revoke_loop w recs obs dry)) q \<noteq> modes w q \<Longrightarrow>
     q \<in> fst ` set recs \<and> q \<notin> obs \<and> \<not> dry"
proof (induction recs arbitrary: w)
  case Nil
  then show ?case by simp
next
  case (Cons r recs)
  obtain p m where r: "r = (p, m)" by (cases r)
  show ?case
  proof (cases "p \<in> obs")
    case True
    with Cons.prems r have "modes (fst (revoke_loop w recs obs dry)) q \<noteq> modes w q"
      by (simp add: check_privilege_usage_def split: prod.splits)
    from Cons.IH[OF this] show ?thesis by simp
  next
    case False
    let ?w1 = "fst (remove_privileges w p dry)"
    from Cons.prems r False
    have neq: "modes (fst (revoke_loop ?w1 recs obs dry)) q \<noteq> modes w q"
      by (simp add: check_privilege_usage_def split: prod.splits)
    show ?thesis
    proof (cases "modes ?w1 q = modes w q")
      case True
      with neq have "modes (fst (revoke_loop ?w1 recs obs dry)) q \<noteq> modes ?w1 q" by simp
      from Cons.IH[OF this] show ?thesis by simp
    next
      case False
      from remove_privileges_modes[OF False] r \<open>p \<notin> obs\<close> show ?thesis by simp
    qed
  qed
qed

lemma main_ok:
  assumes "load_config (config_files w) (config a) = Inr cfg" "0 < monitor_time a"
  shows "main w a =
     (fst (revoke_loop (fst (monitor_processes w (monitor_time a)))
            (fst (find_setuid_setgid_files (tree_at w) ''/''))
            (fst (snd (monitor_processes w (monitor_time a)))) (dry_run a)),
      snd (find_setuid_setgid_files (tree_at w) ''/'')
        @ [(INFO, ''Found '' @ show_nat (length (fst (find_setuid_setgid_files (tree_at w) ''/'')))
                   @ '' files with setuid/setgid bits set.'')]
        @ snd (snd (monitor_processes w (monitor_time a)))
        @ [(INFO, ''Monitored '' @ show_nat (card (fst (snd (monitor_processes w (monitor_time a)))))
                   @ '' unique processes.'')]
        @ snd (revoke_loop (fst (monitor_processes w (monitor_time a)))
            (fst (find_setuid_setgid_files (tree_at w) ''/''))
            (fst (snd (monitor_processes w (monitor_time a)))) (dry_run a)),
      0)"
proof -
  obtain recs l1 where f: "find_setuid_setgid_files (tree_at w) ''/'' = (recs, l1)"
    by (cases "find_setuid_setgid_files (tree_at w) ''/''")
  obtain w1 obs l3 where m: "monitor_processes w (monitor_time a) = (w1, obs, l3)"
    by (cases "monitor_processes w (monitor_time a)")
  obtain w2 l5 where r: "revoke_loop w1 recs obs (dry_run a) = (w2, l5)"
    by (cases "revoke_loop w1 recs obs (dry_run a)")
  show ?thesis
    unfolding main_def using assms f m r by (simp del: append.simps show_nat.simps)
qed


lemma main_modes:
  assumes neq: "modes (fst (main w a)) q \<noteq> modes w q"
  shows "q \<in> fst ` set (fst (find_setuid_setgid_files (tree_at w) ''/'')) \<and> \<not> dry_run a"
proof -
  obtain c where c: "fst (monitor_processes w (monitor_time a)) = w\<lparr>clock := c\<rparr>"
    using monitor_processes_clock_only by blast
  let ?recs = "fst (find_setuid_setgid_files (tree_at w) ''/'')"
  let ?obs = "fst (snd (monitor_processes w (monitor_time a)))"
  have "\<exists>cfg. load_config (config_files w) (config a) = Inr cfg"
    using neq by (cases "load_config (config_files w) (config a)") (simp_all add: main_def)
  then obtain cfg where cfg: "load_config (config_files w) (config a) = Inr cfg" by blast
  have pos: "0 < monitor_time a"
    using neq cfg by (cases "0 < monitor_time a") (simp_all add: main_def)
  have "fst (main w a) = fst (revoke_loop (w\<lparr>clock := c\<rparr>) ?recs ?obs (dry_run a))"
    using main_ok[OF cfg pos] c by simp
  with neq have "modes (fst (revoke_loop (w\<lparr>clock := c\<rparr>) ?recs ?obs (dry_run a))) q
                   \<noteq> modes (w\<lparr>clock := c\<rparr>) q" by simp
  from revoke_loop_modes[OF this] show ?thesis by simp
qed

lemma clear_idem: "(m AND NOT 3072) AND NOT 3072 = (m::int) AND NOT 3072"
  by (simp add: and.assoc)

lemma clear_noop: "(m::int) AND 3072 = 0 \<Longrightarrow> m AND NOT 3072 = m"
proof -
  assume a: "m AND 3072 = 0"
  have "m = (m AND 3072) OR (m AND NOT 3072)"
    by (simp add: bit.conj_disj_distrib[symmetric])
  with a show ?thesis by simp
qed

lemma remove_privileges_success:
  assumes "spawn_error w = None" "modes w p = Some m" "\<not> denied w p"
  shows "remove_privileges w p False =
           (w\<lparr>modes := (modes w)(p \<mapsto> m AND NOT 3072)\<rparr>,
            [(INFO, ''Removed setuid/setgid bits from: '' @ p)])"
  using assms by (simp add: remove_privileges_def subprocess_run_chmod_def)

lemma remove_privileges_twice:
  "remove_privileges (fst (remove_privileges w p False)) p False = remove_privileges w p False"
proof (cases "spawn_error w")
  case (Some e)
  then show ?thesis by (simp add: remove_privileges_def subprocess_run_chmod_def)
next
  case None
  show ?thesis
  proof (cases "modes w p")
    case nf: None
    with None show ?thesis by (simp add: remove_privileges_def subprocess_run_chmod_def)
  next
    case (Some m)
    show ?thesis
    proof (cases "denied w p")
      case True
      with None Some show ?thesis by (simp add: remove_privileges_def subprocess_run_chmod_def)
    next
      case False
      let ?w1 = "w\<lparr>modes := (modes w)(p \<mapsto> m AND NOT 3072)\<rparr>"
      have 1: "remove_privileges w p False = (?w1, [(INFO, ''Removed setuid/setgid bits from: '' @ p)])"
        by (rule remove_privileges_success[OF None Some False])
      have 2: "remove_privileges ?w1 p False =
                 (?w1\<lparr>modes := (modes ?w1)(p \<mapsto> (m AND NOT 3072) AND NOT 3072)\<rparr>,
                  [(INFO, ''Removed setuid/setgid bits from: '' @ p)])"
        by (rule remove_privileges_success) (simp_all add: None False)
      have 3: "?w1\<lparr>modes := (modes ?w1)(p \<mapsto> (m AND NOT 3072) AND NOT 3072)\<rparr> = ?w1"
        by (simp add: clear_idem)
      show ?thesis unfolding 1 fst_conv 2 3 ..
    qed
  qed
qed

section \<open>Correlator\<close>

text \<open>
  C2. A record is kept exactly when its path is a member of the observed set, and is
  handed to the Revoker otherwise; the comparison is equality of the path strings, so
  another spelling of the same path is not a member. The decision is a function of the
  path and the set alone.
\<close>

theorem correlator_decision:
  "check_privilege_usage p obs = (p \<in> obs)
   \<and> revoke_loop w ((p, m) # rest) obs dry =
       (if p \<in> obs
        then (fst (revoke_loop w rest obs dry),
              (INFO, ''Keeping privileges for: '' @ p @ '' (used by monitored processes).'')
                # snd (revoke_loop w rest obs dry))
        else (fst (revoke_loop (fst (remove_privileges w p dry)) rest obs dry),
              snd (remove_privileges w p dry)
                @ snd (revoke_loop (fst (remove_privileges w p dry)) rest obs dry)))
   \<and> \<not> check_privilege_usage ''/bin//a'' {''/bin/a''}"
  by (simp add: check_privilege_usage_def split: prod.splits)

section \<open>Scanner\<close>

text \<open>
  C4. Scanning a root at which a directory tree is found returns exactly the records
  (path, mode) of the reachable files whose mode has the setuid or the setgid bit, and
  as many records as the tree has such files.
\<close>

theorem scanner_complete:
  "fs root = Some t \<Longrightarrow>
     set (fst (find_setuid_setgid_files fs root)) =
       {(p, m). reachable root t p (Inr m) \<and> privileged m}
     \<and> length (fst (find_setuid_setgid_files fs root)) = priv_count t"
  by (simp add: find_setuid_setgid_files_def scan_set(1) scan_length(1))

theorem scanner_complete_witness:
  "tree_at example_world ''/'' = Some example_tree
   \<and> set (fst (find_setuid_setgid_files (tree_at example_world) ''/'')) =
       {(p, m). reachable ''/'' example_tree p (Inr m) \<and> privileged m}
   \<and> length (fst (find_setuid_setgid_files (tree_at example_world) ''/'')) = priv_count example_tree
   \<and> fst (find_setuid_setgid_files (tree_at example_world) ''/'') =
       [(''/bin/a'', 35309), (''/bin/b'', 35309), (''/opt/x'', 34285)]"
proof -
  have h: "tree_at example_world ''/'' = Some example_tree"
    by (simp add: example_world_def)
  have v: "fst (find_setuid_setgid_files (tree_at example_world) ''/'') =
       [(''/bin/a'', 35309), (''/bin/b'', 35309), (''/opt/x'', 34285)]"
    by code_simp
  from scanner_complete[of "tree_at example_world" "''/''" example_tree] h v show ?thesis by blast
qed




section \<open>Validation of the monitoring duration\<close>

text \<open>
  C9. With a monitoring duration that is not positive, the run ends with exit status 1,
  one error record in the log and the world as it found it: nothing was scanned,
  monitored or revoked.
\<close>

theorem main_rejects_duration:
  "monitor_time a \<le> 0 \<Longrightarrow> \<exists>msg. main w a = (w, [(ERROR, msg)], 1)"
  by (cases "load_config (config_files w) (config a)") (simp_all add: main_def)

theorem main_rejects_duration_witness:
  "monitor_time (example_args\<lparr>monitor_time := 0\<rparr>) \<le> 0
   \<and> (\<exists>msg. main example_world (example_args\<lparr>monitor_time := 0\<rparr>)
                = (example_world, [(ERROR, msg)], 1))
   \<and> main example_world (example_args\<lparr>monitor_time := 0\<rparr>)
        = (example_world, [(ERROR, ''Monitor time must be a positive integer.'')], 1)"
proof -
  have h: "monitor_time (example_args\<lparr>monitor_time := 0\<rparr>) \<le> 0" by simp
  have v: "main example_world (example_args\<lparr>monitor_time := 0\<rparr>)
        = (example_world, [(ERROR, ''Monitor time must be a positive integer.'')], 1)"
    by (simp add: main_def load_config_def example_world_def example_args_def)
  from main_rejects_duration[OF h, of example_world] h v show ?thesis by blast
qed

section \<open>Revoker\<close>

text \<open>
  C3. Under dry-run the loop over the inventory returns the world it was given and logs,
  for every record, either that it is kept or that its bits would be removed; a whole
  run under dry-run leaves every mode as it was.
\<close>

theorem dry_run_no_mutation:
  "revoke_loop w recs obs True =
     (w, map (\<lambda>(p, m). if p \<in> obs
                then (INFO, ''Keeping privileges for: '' @ p @ '' (used by monitored processes).'')
                else (INFO, ''[Dry Run] Would remove setuid/setgid bits from: '' @ p)) recs)
   \<and> modes (fst (main w (a\<lparr>dry_run := True\<rparr>))) = modes w"
proof
  show "revoke_loop w recs obs True =
     (w, map (\<lambda>(p, m). if p \<in> obs
                then (INFO, ''Keeping privileges for: '' @ p @ '' (used by monitored processes).'')
                else (INFO, ''[Dry Run] Would remove setuid/setgid bits from: '' @ p)) recs)"
    by (induction recs) (auto simp: check_privilege_usage_def remove_privileges_def)
next
  show "modes (fst (main w (a\<lparr>dry_run := True\<rparr>))) = modes w"
  proof (rule ext)
    fix q
    show "modes (fst (main w (a\<lparr>dry_run := True\<rparr>))) q = modes w q"
      using main_modes[of w "a\<lparr>dry_run := True\<rparr>" q] by auto
  qed
qed

theorem dry_run_no_mutation_witness:
  "revoke_loop example_world [(''/bin/a'', 35309), (''/bin/b'', 35309)] {''/bin/a''} True =
     (example_world,
      [(INFO, ''Keeping privileges for: /bin/a (used by monitored processes).''),
       (INFO, ''[Dry Run] Would remove setuid/setgid bits from: /bin/b'')])
   \<and> modes (fst (main example_world (example_args\<lparr>dry_run := True\<rparr>))) = modes example_world"
  using dry_run_no_mutation[of example_world "[(''/bin/a'', 35309), (''/bin/b'', 35309)]"
          "{''/bin/a''}" example_args]
  by simp

text \<open>
  C8. Calling the Revoker a second time on the same path gives the outcome of the
  first call again and leaves the world as the first call left it. On a file that
  exists and that \<open>chmod\<close> may change the outcome is success, with the bits
  \<open>0o6000\<close> cleared; where they are clear already, the call succeeds and changes nothing.
\<close>

theorem revocation_idempotent:
  "remove_privileges (fst (remove_privileges w p False)) p False = remove_privileges w p False
   \<and> (spawn_error w = None \<and> modes w p = Some m \<and> \<not> denied w p \<longrightarrow>
        remove_privileges w p False =
          (w\<lparr>modes := (modes w)(p \<mapsto> m AND NOT 3072)\<rparr>,
           [(INFO, ''Removed setuid/setgid bits from: '' @ p)]))
   \<and> (spawn_error w = None \<and> modes w p = Some m \<and> \<not> denied w p \<and> m AND 3072 = 0 \<longrightarrow>
        remove_privileges w p False = (w, [(INFO, ''Removed setuid/setgid bits from: '' @ p)]))"
proof (intro conjI impI)
  show "remove_privileges (fst (remove_privileges w p False)) p False = remove_privileges w p False"
    by (rule remove_privileges_twice)
next
  assume "spawn_error w = None \<and> modes w p = Some m \<and> \<not> denied w p"
  then show "remove_privileges w p False =
          (w\<lparr>modes := (modes w)(p \<mapsto> m AND NOT 3072)\<rparr>,
           [(INFO, ''Removed setuid/setgid bits from: '' @ p)])"
    by (simp add: remove_privileges_success)
next
  assume a: "spawn_error w = None \<and> modes w p = Some m \<and> \<not> denied w p \<and> m AND 3072 = 0"
  then have e: "m AND NOT 3072 = m"
    by (intro clear_noop) simp
  have "(modes w)(p \<mapsto> m AND NOT 3072) = modes w"
    unfolding e using a by (simp add: fun_upd_idem)
  with a show "remove_privileges w p False = (w, [(INFO, ''Removed setuid/setgid bits from: '' @ p)])"
    by (simp add: remove_privileges_success)
qed

theorem revocation_idempotent_witness:
  "spawn_error example_world = None \<and> modes example_world ''/bin/b'' = Some 35309
   \<and> \<not> denied example_world ''/bin/b''
   \<and> modes example_world ''/bin/c'' = Some 33261 \<and> \<not> denied example_world ''/bin/c''
   \<and> (33261::int) AND 3072 = 0
   \<and> remove_privileges (fst (remove_privileges example_world ''/bin/b'' False)) ''/bin/b'' False
        = remove_privileges example_world ''/bin/b'' False
   \<and> remove_privileges example_world ''/bin/b'' False =
        (example_world\<lparr>modes := (modes example_world)(''/bin/b'' \<mapsto> 35309 AND NOT 3072)\<rparr>,
         [(INFO, ''Removed setuid/setgid bits from: '' @ ''/bin/b'')])
   \<and> remove_privileges example_world ''/bin/c'' False =
        (example_world, [(INFO, ''Removed setuid/setgid bits from: '' @ ''/bin/c'')])
   \<and> (35309::int) AND NOT 3072 = 33261"
proof -
  have h: "spawn_error example_world = None" "modes example_world ''/bin/b'' = Some 35309"
    "\<not> denied example_world ''/bin/b''" "modes example_world ''/bin/c'' = Some 33261"
    "\<not> denied example_world ''/bin/c''"
    by (simp_all add: example_world_def)
  have b: "(33261::int) AND 3072 = 0" "(35309::int) AND NOT 3072 = 33261" by simp_all
  from revocation_idempotent[of example_world "''/bin/b''" 35309]
       revocation_idempotent[of example_world "''/bin/c''" 33261] h b
  show ?thesis by blast
qed

section \<open>Activity Monitor\<close>




section \<open>Unreadable directories\<close>




section \<open>Failed revocations\<close>




section \<open>The scan root of the pipeline\<close>




end
